theory Spec2Isabelle
  imports Complex_Main "HOL-Library.Word" "HOL-Library.Sublist"
begin

section \<open>Conventions of the embedding\<close>

text \<open>
  The C++ type \<open>float\<close> is a type parameter \<open>'a\<close> wherever the code only moves samples
  or combines them with \<open>+\<close>, \<open>*\<close> and \<open>>=\<close>: the definitions ask for nothing but the
  operations (sorts \<open>plus\<close>, \<open>times\<close>, \<open>ord\<close>, \<open>zero\<close>, \<open>one\<close>), so a theorem stated at
  these sorts assumes no law of arithmetic and covers IEEE-754 rounding as much as the
  reals. Where a proof needs sums to be reorderable the sort is \<open>comm_semiring_0\<close>
  (exact arithmetic), and where the code calls \<open>std::exp\<close>, divides or converts to
  \<open>int\<close> the type is \<open>real\<close>.

  \<open>int\<close> parameters of the C++ code are HOL integers; a loop counter that starts at 0
  and only grows is a \<open>nat\<close> compared with the \<open>int\<close> bound. \<open>size_t\<close> is a 64-bit word
  (the target is arm64), so that \<open>capacity + 1\<close> and \<open>capacity_ - x - 1\<close> wrap as they do
  in the code. Raw pointers to arrays are lists; an access outside the list is undefined
  behaviour in C++. For the kernels, the layer and the encoders the theorems carry the
  hypotheses that keep every access inside; the ring buffer, whose claims are about what
  is copied where, returns an error value for a copy that leaves an array.
\<close>

type_synonym size_t = "64 word"

text \<open>
  \<open>BadAlloc\<close> and \<open>LengthError\<close> are the exceptions the constructors throw
  (\<open>std::bad_alloc\<close>, \<open>std::length_error\<close>). \<open>UndefinedBehaviour\<close> marks the places where
  the ring buffer would copy outside an array or divide by zero.
\<close>

datatype error = BadAlloc | LengthError | UndefinedBehaviour

section \<open>Dense kernels (lif_layer.cpp, kernels/spike_dense_neon.cpp, kernels/spike_dense_sme2.cpp)\<close>

text \<open>The two preprocessor symbols that select the bodies of the three kernels.\<close>

record build =
  HAVE_NEON :: bool
  HAVE_SME2 :: bool

subsection \<open>Scalar fallback loop of \<open>spike_dense_forward\<close>\<close>

text \<open>\<open>for (int i = 0; i < input_size; ++i) sum += weights[o * input_size + i] * spikes[b * input_size + i];\<close>\<close>

function scalar_loop_i ::
  "'a::{plus,times} list \<Rightarrow> 'a list \<Rightarrow> int \<Rightarrow> nat \<Rightarrow> nat \<Rightarrow> nat \<Rightarrow> 'a \<Rightarrow> 'a" where
  "scalar_loop_i spikes weights input_size b o' i sum_acc =
     (if int i < input_size
      then scalar_loop_i spikes weights input_size b o' (Suc i)
             (sum_acc + weights ! nat (int o' * input_size + int i)
                     * spikes ! nat (int b * input_size + int i))
      else sum_acc)"
  by pat_completeness auto
termination
  by (relation "measure (\<lambda>(spikes, weights, input_size, b, o', i, sum_acc). nat (input_size - int i))") auto

text \<open>\<open>for (int o = 0; o < output_size; ++o) { float sum = bias[o]; ...; output[b * output_size + o] = sum; }\<close>\<close>

function scalar_loop_o ::
  "'a::{plus,times} list \<Rightarrow> 'a list \<Rightarrow> 'a list \<Rightarrow> int \<Rightarrow> int \<Rightarrow> nat \<Rightarrow> nat \<Rightarrow> 'a list \<Rightarrow> 'a list" where
  "scalar_loop_o spikes weights bias input_size output_size b o' output =
     (if int o' < output_size
      then scalar_loop_o spikes weights bias input_size output_size b (Suc o')
             (output[nat (int b * output_size + int o') :=
                scalar_loop_i spikes weights input_size b o' 0 (bias ! o')])
      else output)"
  by pat_completeness auto
termination
  by (relation "measure (\<lambda>(spikes, weights, bias, input_size, output_size, b, o', output).
        nat (output_size - int o'))") auto

text \<open>\<open>for (int b = 0; b < batch_size; ++b) ...\<close>\<close>

function scalar_loop_b ::
  "'a::{plus,times} list \<Rightarrow> 'a list \<Rightarrow> 'a list \<Rightarrow> int \<Rightarrow> int \<Rightarrow> int \<Rightarrow> nat \<Rightarrow> 'a list \<Rightarrow> 'a list" where
  "scalar_loop_b spikes weights bias batch_size input_size output_size b output =
     (if int b < batch_size
      then scalar_loop_b spikes weights bias batch_size input_size output_size (Suc b)
             (scalar_loop_o spikes weights bias input_size output_size b 0 output)
      else output)"
  by pat_completeness auto
termination
  by (relation "measure (\<lambda>(spikes, weights, bias, batch_size, input_size, output_size, b, output).
        nat (batch_size - int b))") auto

definition scalar_kernel ::
  "'a::{plus,times} list \<Rightarrow> 'a list \<Rightarrow> 'a list \<Rightarrow> 'a list \<Rightarrow> int \<Rightarrow> int \<Rightarrow> int \<Rightarrow> 'a list" where
  "scalar_kernel spikes weights bias output batch_size input_size output_size =
     scalar_loop_b spikes weights bias batch_size input_size output_size 0 output"

subsection \<open>The NEON body of \<open>spike_dense_neon\<close>\<close>

text \<open>
  The intrinsics of \<open>arm_neon.h\<close> the kernel uses, lane by lane as the architecture
  defines them. A \<open>float32x4_t\<close> is four lanes, a \<open>float32x2_t\<close> two.
\<close>

type_synonym 'a float32x4_t = "'a \<times> 'a \<times> 'a \<times> 'a"
type_synonym 'a float32x2_t = "'a \<times> 'a"

definition vdupq_n_f32 :: "'a \<Rightarrow> 'a float32x4_t" where
  "vdupq_n_f32 x = (x, x, x, x)"

definition vld1q_f32 :: "'a list \<Rightarrow> nat \<Rightarrow> 'a float32x4_t" where
  "vld1q_f32 xs p = (xs ! p, xs ! (p + 1), xs ! (p + 2), xs ! (p + 3))"

fun vmlaq_f32 :: "'a::{plus,times} float32x4_t \<Rightarrow> 'a float32x4_t \<Rightarrow> 'a float32x4_t \<Rightarrow> 'a float32x4_t" where
  "vmlaq_f32 (a0, a1, a2, a3) (b0, b1, b2, b3) (c0, c1, c2, c3) =
     (a0 + b0 * c0, a1 + b1 * c1, a2 + b2 * c2, a3 + b3 * c3)"

fun vget_low_f32 :: "'a float32x4_t \<Rightarrow> 'a float32x2_t" where
  "vget_low_f32 (a0, a1, a2, a3) = (a0, a1)"

fun vget_high_f32 :: "'a float32x4_t \<Rightarrow> 'a float32x2_t" where
  "vget_high_f32 (a0, a1, a2, a3) = (a2, a3)"

fun vadd_f32 :: "'a::plus float32x2_t \<Rightarrow> 'a float32x2_t \<Rightarrow> 'a float32x2_t" where
  "vadd_f32 (a0, a1) (b0, b1) = (a0 + b0, a1 + b1)"

fun vpadd_f32 :: "'a::plus float32x2_t \<Rightarrow> 'a float32x2_t \<Rightarrow> 'a float32x2_t" where
  "vpadd_f32 (a0, a1) (b0, b1) = (a0 + a1, b0 + b1)"

fun vget_lane_f32_0 :: "'a float32x2_t \<Rightarrow> 'a" where
  "vget_lane_f32_0 (a0, a1) = a0"

text \<open>
  \<open>for (; i + 3 < input_size; i += 4) sum_vec = vmlaq_f32(sum_vec, vld1q_f32(spike_row + i), vld1q_f32(weight_row + i));\<close>
  with \<open>spike_row = spikes + b * input_size\<close> and \<open>weight_row = weights + o * input_size\<close>.
  The loop returns the counter with the accumulator, since the tail loop goes on from it.
\<close>

function neon_loop_vec ::
  "'a::{plus,times} list \<Rightarrow> 'a list \<Rightarrow> int \<Rightarrow> nat \<Rightarrow> nat \<Rightarrow> nat \<Rightarrow> 'a float32x4_t
     \<Rightarrow> nat \<times> 'a float32x4_t" where
  "neon_loop_vec spikes weights input_size b o' i sum_vec =
     (if int i + 3 < input_size
      then neon_loop_vec spikes weights input_size b o' (i + 4)
             (vmlaq_f32 sum_vec
                (vld1q_f32 spikes (nat (int b * input_size) + i))
                (vld1q_f32 weights (nat (int o' * input_size) + i)))
      else (i, sum_vec))"
  by pat_completeness auto
termination
  by (relation "measure (\<lambda>(spikes, weights, input_size, b, o', i, sum_vec). nat (input_size - int i))") auto

text \<open>\<open>for (; i < input_size; ++i) sum_scalar += weight_row[i] * spike_row[i];\<close>\<close>

function neon_loop_tail ::
  "'a::{plus,times} list \<Rightarrow> 'a list \<Rightarrow> int \<Rightarrow> nat \<Rightarrow> nat \<Rightarrow> nat \<Rightarrow> 'a \<Rightarrow> 'a" where
  "neon_loop_tail spikes weights input_size b o' i sum_scalar =
     (if int i < input_size
      then neon_loop_tail spikes weights input_size b o' (Suc i)
             (sum_scalar + weights ! (nat (int o' * input_size) + i)
                           * spikes ! (nat (int b * input_size) + i))
      else sum_scalar)"
  by pat_completeness auto
termination
  by (relation "measure (\<lambda>(spikes, weights, input_size, b, o', i, sum_scalar). nat (input_size - int i))") auto

text \<open>The body of the loop over \<open>o\<close>: accumulator set-up, vector loop, horizontal sum, tail.\<close>

definition neon_row :: "'a::{plus,times,zero} list \<Rightarrow> 'a list \<Rightarrow> 'a list \<Rightarrow> int \<Rightarrow> nat \<Rightarrow> nat \<Rightarrow> 'a" where
  "neon_row spikes weights bias input_size b o' =
     (let sum_vec0 = vdupq_n_f32 0;
          sum_scalar0 = bias ! o';
          (i, sum_vec) = neon_loop_vec spikes weights input_size b o' 0 sum_vec0;
          sum_pair = vadd_f32 (vget_low_f32 sum_vec) (vget_high_f32 sum_vec);
          sum_scalar1 = sum_scalar0 + vget_lane_f32_0 (vpadd_f32 sum_pair sum_pair)
      in neon_loop_tail spikes weights input_size b o' i sum_scalar1)"

function neon_loop_o ::
  "'a::{plus,times,zero} list \<Rightarrow> 'a list \<Rightarrow> 'a list \<Rightarrow> int \<Rightarrow> int \<Rightarrow> nat \<Rightarrow> nat \<Rightarrow> 'a list \<Rightarrow> 'a list" where
  "neon_loop_o spikes weights bias input_size output_size b o' output =
     (if int o' < output_size
      then neon_loop_o spikes weights bias input_size output_size b (Suc o')
             (output[nat (int b * output_size) + o' := neon_row spikes weights bias input_size b o'])
      else output)"
  by pat_completeness auto
termination
  by (relation "measure (\<lambda>(spikes, weights, bias, input_size, output_size, b, o', output).
        nat (output_size - int o'))") auto

function neon_loop_b ::
  "'a::{plus,times,zero} list \<Rightarrow> 'a list \<Rightarrow> 'a list \<Rightarrow> int \<Rightarrow> int \<Rightarrow> int \<Rightarrow> nat \<Rightarrow> 'a list \<Rightarrow> 'a list" where
  "neon_loop_b spikes weights bias batch_size input_size output_size b output =
     (if int b < batch_size
      then neon_loop_b spikes weights bias batch_size input_size output_size (Suc b)
             (neon_loop_o spikes weights bias input_size output_size b 0 output)
      else output)"
  by pat_completeness auto
termination
  by (relation "measure (\<lambda>(spikes, weights, bias, batch_size, input_size, output_size, b, output).
        nat (batch_size - int b))") auto

definition neon_kernel ::
  "'a::{plus,times,zero} list \<Rightarrow> 'a list \<Rightarrow> 'a list \<Rightarrow> 'a list \<Rightarrow> int \<Rightarrow> int \<Rightarrow> int \<Rightarrow> 'a list" where
  "neon_kernel spikes weights bias output batch_size input_size output_size =
     neon_loop_b spikes weights bias batch_size input_size output_size 0 output"

subsection \<open>The three entry points and their dispatch\<close>

text \<open>
  \<open>spike_dense_forward\<close>, \<open>spike_dense_neon\<close> and \<open>spike_dense_sme2\<close> call one another
  according to the build: \<open>spike_dense_forward\<close> hands over to the SME2 entry under
  \<open>HAVE_SME2\<close>, else to the NEON entry under \<open>HAVE_NEON\<close>, else runs the scalar loop; the
  NEON entry runs its own body under \<open>HAVE_NEON\<close> and calls \<open>spike_dense_forward\<close>
  otherwise; both variants of the SME2 entry call the NEON entry under \<open>HAVE_NEON\<close> and
  \<open>spike_dense_forward\<close> otherwise. The calls are mutually recursive, so the three entry
  points are one function over the entry's name, and a call chain that never ends is
  the value \<open>None\<close>.
\<close>

datatype kernel = Forward | Neon | Sme2

text \<open>The seven arguments every entry point takes, passed on unchanged by each call.\<close>

type_synonym 'a dense_args = "'a list \<times> 'a list \<times> 'a list \<times> 'a list \<times> int \<times> int \<times> int"

fun scalar_body :: "'a::{plus,times} dense_args \<Rightarrow> 'a list" where
  "scalar_body (spikes, weights, bias, output, batch_size, input_size, output_size) =
     scalar_kernel spikes weights bias output batch_size input_size output_size"

fun neon_body :: "'a::{plus,times,zero} dense_args \<Rightarrow> 'a list" where
  "neon_body (spikes, weights, bias, output, batch_size, input_size, output_size) =
     neon_kernel spikes weights bias output batch_size input_size output_size"

partial_function (option) spike_dense ::
  "build \<Rightarrow> kernel \<Rightarrow> 'a::{plus,times,zero} dense_args \<Rightarrow> 'a list option" where
  "spike_dense cfg k args =
     (case k of
        Forward \<Rightarrow>
          if HAVE_SME2 cfg then spike_dense cfg Sme2 args
          else if HAVE_NEON cfg then spike_dense cfg Neon args
          else Some (scalar_body args)
      | Neon \<Rightarrow>
          if HAVE_NEON cfg then Some (neon_body args)
          else spike_dense cfg Forward args
      | Sme2 \<Rightarrow>
          if HAVE_SME2 cfg
          then (if HAVE_NEON cfg then spike_dense cfg Neon args
                else spike_dense cfg Forward args)
          else (if HAVE_NEON cfg then spike_dense cfg Neon args
                else spike_dense cfg Forward args))"

definition spike_dense_forward ::
  "build \<Rightarrow> 'a::{plus,times,zero} list \<Rightarrow> 'a list \<Rightarrow> 'a list \<Rightarrow> 'a list \<Rightarrow> int \<Rightarrow> int \<Rightarrow> int \<Rightarrow> 'a list option" where
  "spike_dense_forward cfg spikes weights bias output batch_size input_size output_size =
     spike_dense cfg Forward (spikes, weights, bias, output, batch_size, input_size, output_size)"


definition spike_dense_sme2 ::
  "build \<Rightarrow> 'a::{plus,times,zero} list \<Rightarrow> 'a list \<Rightarrow> 'a list \<Rightarrow> 'a list \<Rightarrow> int \<Rightarrow> int \<Rightarrow> int \<Rightarrow> 'a list option" where
  "spike_dense_sme2 cfg spikes weights bias output batch_size input_size output_size =
     spike_dense cfg Sme2 (spikes, weights, bias, output, batch_size, input_size, output_size)"

subsection \<open>The dense linear operator the kernels are compared with\<close>




text \<open>
  The builds in which every chain of calls between the entry points ends: all but the
  one with \<open>HAVE_SME2\<close> and without \<open>HAVE_NEON\<close>.
\<close>

definition calls_return :: "build \<Rightarrow> bool" where
  "calls_return cfg \<longleftrightarrow> (HAVE_SME2 cfg \<longrightarrow> HAVE_NEON cfg)"

text \<open>The build in which \<open>HAVE_SME2\<close> is defined and \<open>HAVE_NEON\<close> is not.\<close>

definition sme2_without_neon :: build where
  "sme2_without_neon = \<lparr>HAVE_NEON = False, HAVE_SME2 = True\<rparr>"

section \<open>LIF layer (cortexn_snn.h, cortexn_snn.cpp)\<close>

record 'a LIFParams =
  tau_mem :: 'a
  tau_syn :: 'a
  v_thresh :: 'a
  v_reset :: 'a
  v_rest :: 'a
  dt :: 'a

text \<open>The default constructor of \<open>LIFParams\<close>.\<close>

definition LIFParams_default :: "real LIFParams" where
  "LIFParams_default =
     \<lparr>tau_mem = 10, tau_syn = 5, v_thresh = 1, v_reset = 0, v_rest = 0, dt = 1\<rparr>"

text \<open>
  A name cannot end in an underscore here, so the member \<open>x_\<close> of class \<open>LIFLayer\<close> is the
  field \<open>lif_x\<close>; the members of the other classes are prefixed in the same way.
\<close>

record 'a LIFLayer =
  lif_input_size :: int
  lif_output_size :: int
  lif_params :: "'a LIFParams"
  lif_weights :: "'a list"
  lif_bias :: "'a list"
  lif_membrane_potential :: "'a list"
  lif_synaptic_current :: "'a list"
  lif_beta_mem :: 'a
  lif_beta_syn :: 'a

text \<open>
  The constructor. A \<open>std::vector\<close> built with a negative \<open>int\<close> count receives the
  count converted to \<open>size_t\<close>, beyond \<open>max_size()\<close>, and throws \<open>std::length_error\<close>.
\<close>

definition LIFLayer_ctor :: "int \<Rightarrow> int \<Rightarrow> real LIFParams \<Rightarrow> error + real LIFLayer" where
  "LIFLayer_ctor input_size output_size params =
     (if input_size * output_size < 0 \<or> output_size < 0 then Inl LengthError
      else Inr \<lparr>lif_input_size = input_size,
                lif_output_size = output_size,
                lif_params = params,
                lif_weights = replicate (nat (input_size * output_size)) 0,
                lif_bias = replicate (nat output_size) 0,
                lif_membrane_potential = replicate (nat output_size) (v_rest params),
                lif_synaptic_current = replicate (nat output_size) 0,
                lif_beta_mem = exp (- dt params / tau_mem params),
                lif_beta_syn = exp (- dt params / tau_syn params)\<rparr>)"

text \<open>\<open>load_weights\<close> copies \<open>weights_.size()\<close> and \<open>bias_.size()\<close> elements from the caller's arrays.\<close>

definition load_weights :: "'a LIFLayer \<Rightarrow> 'a list \<Rightarrow> 'a list \<Rightarrow> 'a LIFLayer" where
  "load_weights L weights bias =
     L\<lparr>lif_weights := take (length (lif_weights L)) weights,
       lif_bias := take (length (lif_bias L)) bias\<rparr>"

text \<open>\<open>compute_synaptic_input\<close>: the dense kernel with batch size 1.\<close>

definition compute_synaptic_input ::
  "build \<Rightarrow> 'a::{plus,times,zero} LIFLayer \<Rightarrow> 'a list \<Rightarrow> 'a list \<Rightarrow> 'a list option" where
  "compute_synaptic_input cfg L input_spikes synaptic_input =
     spike_dense_forward cfg input_spikes (lif_weights L) (lif_bias L) synaptic_input
       1 (lif_input_size L) (lif_output_size L)"

text \<open>
  \<open>update_neurons\<close>: the loop over \<open>i\<close>, with the three assignments in the order of the
  source. Each later line reads what the earlier line has just stored.
\<close>

function update_neurons_loop ::
  "'a::{plus,times,ord,zero,one} LIFLayer \<Rightarrow> 'a list \<Rightarrow> 'a list \<Rightarrow> nat \<Rightarrow> 'a LIFLayer \<times> 'a list" where
  "update_neurons_loop L synaptic_input output_spikes i =
     (if int i < lif_output_size L
      then
        let L1 = L\<lparr>lif_synaptic_current :=
                      (lif_synaptic_current L)[i := lif_beta_syn L * lif_synaptic_current L ! i + synaptic_input ! i]\<rparr>;
            L2 = L1\<lparr>lif_membrane_potential :=
                      (lif_membrane_potential L1)[i := lif_beta_mem L1 * lif_membrane_potential L1 ! i
                                                      + lif_synaptic_current L1 ! i]\<rparr>
        in if lif_membrane_potential L2 ! i \<ge> v_thresh (lif_params L2)
           then update_neurons_loop
                  (L2\<lparr>lif_membrane_potential := (lif_membrane_potential L2)[i := v_reset (lif_params L2)]\<rparr>)
                  synaptic_input (output_spikes[i := 1]) (Suc i)
           else update_neurons_loop L2 synaptic_input (output_spikes[i := 0]) (Suc i)
      else (L, output_spikes))"
  by pat_completeness auto
termination
  by (relation "measure (\<lambda>(L, synaptic_input, output_spikes, i). nat (lif_output_size L - int i))") auto

definition update_neurons ::
  "'a::{plus,times,ord,zero,one} LIFLayer \<Rightarrow> 'a list \<Rightarrow> 'a list \<Rightarrow> 'a LIFLayer \<times> 'a list" where
  "update_neurons L synaptic_input output_spikes = update_neurons_loop L synaptic_input output_spikes 0"

text \<open>
  \<open>forward\<close>: a fresh zero vector of \<open>output_size_\<close> elements receives the kernel's result,
  then the neurons are updated. \<open>batch_size\<close> is not used by the body. The result is
  \<open>None\<close> when the kernel call never returns.
\<close>

definition forward ::
  "build \<Rightarrow> 'a::{plus,times,ord,zero,one} LIFLayer \<Rightarrow> 'a list \<Rightarrow> 'a list \<Rightarrow> int
     \<Rightarrow> ('a LIFLayer \<times> 'a list) option" where
  "forward cfg L input_spikes output_spikes batch_size =
     (case compute_synaptic_input cfg L input_spikes (replicate (nat (lif_output_size L)) 0) of
        None \<Rightarrow> None
      | Some synaptic_input \<Rightarrow> Some (update_neurons L synaptic_input output_spikes))"

text \<open>\<open>reset\<close>: two \<open>std::fill\<close> over the whole vectors.\<close>

definition reset :: "'a::zero LIFLayer \<Rightarrow> 'a LIFLayer" where
  "reset L =
     L\<lparr>lif_membrane_potential := map (\<lambda>_. v_rest (lif_params L)) (lif_membrane_potential L),
       lif_synaptic_current := map (\<lambda>_. 0) (lif_synaptic_current L)\<rparr>"

text \<open>
  What the constructor establishes and \<open>forward\<close> and \<open>reset\<close> keep: the vectors have the
  sizes the constructor gave them.
\<close>

definition LIFLayer_inv :: "'a LIFLayer \<Rightarrow> bool" where
  "LIFLayer_inv L \<longleftrightarrow>
     0 \<le> lif_output_size L
     \<and> 0 \<le> lif_input_size L * lif_output_size L
     \<and> length (lif_weights L) = nat (lif_input_size L * lif_output_size L)
     \<and> length (lif_bias L) = nat (lif_output_size L)
     \<and> length (lif_membrane_potential L) = nat (lif_output_size L)
     \<and> length (lif_synaptic_current L) = nat (lif_output_size L)"

subsection \<open>The update of one neuron, named for the statements\<close>

text \<open>
  The value line 1 of the loop body stores in \<open>synaptic_current_[i]\<close>, the value line 2
  stores in \<open>membrane_potential_[i]\<close>, the test of line 3, and the layer after the body.
\<close>

definition decayed_current :: "'a::{plus,times} LIFLayer \<Rightarrow> 'a list \<Rightarrow> nat \<Rightarrow> 'a" where
  "decayed_current L synaptic_input i =
     lif_beta_syn L * lif_synaptic_current L ! i + synaptic_input ! i"

definition decayed_potential :: "'a::{plus,times} LIFLayer \<Rightarrow> 'a list \<Rightarrow> nat \<Rightarrow> 'a" where
  "decayed_potential L synaptic_input i =
     lif_beta_mem L * lif_membrane_potential L ! i + decayed_current L synaptic_input i"

definition fires :: "'a::{plus,times,ord} LIFLayer \<Rightarrow> 'a list \<Rightarrow> nat \<Rightarrow> bool" where
  "fires L synaptic_input i \<longleftrightarrow> decayed_potential L synaptic_input i \<ge> v_thresh (lif_params L)"

definition neuron_step :: "'a::{plus,times,ord} LIFLayer \<Rightarrow> 'a list \<Rightarrow> nat \<Rightarrow> 'a LIFLayer" where
  "neuron_step L synaptic_input i =
     L\<lparr>lif_synaptic_current := (lif_synaptic_current L)[i := decayed_current L synaptic_input i],
       lif_membrane_potential := (lif_membrane_potential L)
          [i := if fires L synaptic_input i then v_reset (lif_params L)
                else decayed_potential L synaptic_input i]\<rparr>"

text \<open>
  Scenario A of the specification: a layer of 4 inputs and 2 neurons with the default
  parameters, every weight 0.5, no bias, at rest.
\<close>

definition scenario_A :: "real LIFLayer" where
  "scenario_A =
     \<lparr>lif_input_size = 4, lif_output_size = 2, lif_params = LIFParams_default,
      lif_weights = replicate 8 (1 / 2), lif_bias = [0, 0],
      lif_membrane_potential = [0, 0], lif_synaptic_current = [0, 0],
      lif_beta_mem = exp (- 1 / 10), lif_beta_syn = exp (- 1 / 5)\<rparr>"

section \<open>Spike encoders (spike_encoder.h, spike_encoder.cpp, cortexn_snn.cpp)\<close>

text \<open>
  \<open>for (int i = 0; i < n; ++i) body\<close>, for the loops of the encoders: the body takes the
  counter and the state the loop carries.
\<close>

function for_loop :: "int \<Rightarrow> (nat \<Rightarrow> 's \<Rightarrow> 's) \<Rightarrow> nat \<Rightarrow> 's \<Rightarrow> 's" where
  "for_loop n body i s = (if int i < n then for_loop n body (Suc i) (body i s) else s)"
  by pat_completeness auto
termination
  by (relation "measure (\<lambda>(n, body, i, s). nat (n - int i))") auto

subsection \<open>\<open>RateEncoder\<close>\<close>

text \<open>
  \<open>std::mt19937\<close> and \<open>std::uniform_real_distribution<float>\<close> belong to the C++ library, not
  to this repository, so they are parameters: \<open>mt19937\<close> builds the engine from a seed and
  \<open>uniform_real\<close> is one call \<open>dist_(rng_)\<close>, which returns a number and the engine advanced.
\<close>

record 'g std_random =
  mt19937 :: "32 word \<Rightarrow> 'g"
  uniform_real :: "'g \<Rightarrow> real \<times> 'g"

record 'g RateEncoder =
  rate_gain :: real
  rate_rng :: 'g

definition RateEncoder_ctor :: "'g std_random \<Rightarrow> real \<Rightarrow> 32 word \<Rightarrow> 'g RateEncoder" where
  "RateEncoder_ctor lib gain seed = \<lparr>rate_gain = gain, rate_rng = mt19937 lib seed\<rparr>"

text \<open>The constructor with its default arguments, \<open>gain = 10.0f\<close> and \<open>seed = 42\<close>.\<close>

definition RateEncoder_default :: "'g std_random \<Rightarrow> 'g RateEncoder" where
  "RateEncoder_default lib = RateEncoder_ctor lib 10 42"

definition RateEncoder_encode :: "'g std_random \<Rightarrow> 'g RateEncoder \<Rightarrow> real \<Rightarrow> real \<times> 'g RateEncoder" where
  "RateEncoder_encode lib encoder input =
     (let rate = 1 / (1 + exp (- rate_gain encoder * input));
          (u, g) = uniform_real lib (rate_rng encoder)
      in (if u < rate then 1 else 0, encoder\<lparr>rate_rng := g\<rparr>))"

subsection \<open>\<open>LatencyEncoder\<close>\<close>

text \<open>\<open>static_cast<int>\<close> of a floating-point value drops the fraction, towards zero.\<close>

definition static_cast_int :: "real \<Rightarrow> int" where
  "static_cast_int x = (if 0 \<le> x then \<lfloor>x\<rfloor> else \<lceil>x\<rceil>)"

record LatencyEncoder =
  lat_num_steps :: int

definition LatencyEncoder_encode :: "LatencyEncoder \<Rightarrow> real \<Rightarrow> int" where
  "LatencyEncoder_encode encoder input =
     (let normalized0 = (input + 1) / 2;
          normalized = max 0 (min 1 normalized0);
          spike_time = static_cast_int ((1 - normalized) * real_of_int (lat_num_steps encoder))
      in min spike_time (lat_num_steps encoder - 1))"

definition fast_sigmoid :: "real \<Rightarrow> real" where
  "fast_sigmoid x = (if x < - 3 then 0 else if x > 3 then 1 else 1 / 2 + 1 / 4 * x)"

subsection \<open>\<open>TemporalContrastEncoder\<close>\<close>

record TemporalContrastEncoder =
  tc_input_size :: int
  tc_threshold :: real
  tc_prev_input :: "real list"

definition TemporalContrastEncoder_ctor :: "int \<Rightarrow> real \<Rightarrow> TemporalContrastEncoder" where
  "TemporalContrastEncoder_ctor input_size threshold =
     \<lparr>tc_input_size = input_size, tc_threshold = threshold,
      tc_prev_input = replicate (nat input_size) 0\<rparr>"

text \<open>The state of the loop is the encoder with the two output arrays.\<close>

definition TemporalContrastEncoder_encode ::
  "TemporalContrastEncoder \<Rightarrow> real list \<Rightarrow> real list \<Rightarrow> real list
     \<Rightarrow> TemporalContrastEncoder \<times> real list \<times> real list" where
  "TemporalContrastEncoder_encode encoder input on_spikes off_spikes =
     for_loop (tc_input_size encoder)
       (\<lambda>i (enc, on, off).
          let delta = input ! i - tc_prev_input enc ! i;
              (on', off') =
                (if delta > tc_threshold enc then (on[i := 1], off[i := 0])
                 else if delta < - tc_threshold enc then (on[i := 0], off[i := 1])
                 else (on[i := 0], off[i := 0]))
          in (enc\<lparr>tc_prev_input := (tc_prev_input enc)[i := input ! i]\<rparr>, on', off'))
       0 (encoder, on_spikes, off_spikes)"

subsection \<open>\<open>SpikeEncoder\<close>\<close>

datatype EncodingType = RATE | LATENCY | TEMPORAL

record SpikeEncoder =
  enc_input_size :: int
  enc_num_steps :: int
  enc_type :: EncodingType

text \<open>
  \<open>encode_rate\<close>: one \<open>RateEncoder\<close> with the default arguments, made at the start of the
  call, then the loops over \<open>t\<close>, \<open>b\<close> and \<open>i\<close>. The loops carry the encoder (its engine
  advances at each draw) and the output array.
\<close>

definition encode_rate ::
  "'g std_random \<Rightarrow> SpikeEncoder \<Rightarrow> real list \<Rightarrow> real list \<Rightarrow> int \<Rightarrow> real list" where
  "encode_rate lib se input spike_trains batch_size =
     snd (for_loop (enc_num_steps se)
       (\<lambda>t. for_loop batch_size
         (\<lambda>b. for_loop (enc_input_size se)
           (\<lambda>i (encoder, st).
              let idx = int t * batch_size * enc_input_size se + int b * enc_input_size se + int i;
                  (v, encoder') =
                     RateEncoder_encode lib encoder (input ! nat (int b * enc_input_size se + int i))
              in (encoder', st[nat idx := v]))
           0)
         0)
       0 (RateEncoder_default lib, spike_trains))"

text \<open>
  \<open>std::memset(spike_trains, 0, n * sizeof(float))\<close>: the first \<open>n\<close> elements become 0.
\<close>

definition memset_zero :: "real list \<Rightarrow> nat \<Rightarrow> real list" where
  "memset_zero xs n = replicate (min n (length xs)) 0 @ drop n xs"

text \<open>
  \<open>encode_latency\<close>. A negative \<open>idx\<close> would be a store before the start of the array
  (undefined behaviour); the model leaves the array as it is there.
\<close>

definition encode_latency :: "SpikeEncoder \<Rightarrow> real list \<Rightarrow> real list \<Rightarrow> int \<Rightarrow> real list" where
  "encode_latency se input spike_trains batch_size =
     (let encoder = \<lparr>lat_num_steps = enc_num_steps se\<rparr>;
          zeroed = memset_zero spike_trains (nat (enc_num_steps se * batch_size * enc_input_size se))
      in for_loop batch_size
           (\<lambda>b. for_loop (enc_input_size se)
             (\<lambda>i st.
                let spike_time = LatencyEncoder_encode encoder (input ! nat (int b * enc_input_size se + int i));
                    idx = spike_time * batch_size * enc_input_size se + int b * enc_input_size se + int i
                in if 0 \<le> idx then st[nat idx := 1] else st)
             0)
           0 zeroed)"

text \<open>
  \<open>encode\<close>. The result is the encoder after the call, the output array and the lines the
  call sends to the error log. The \<open>default\<close> branch of the \<open>switch\<close> is the branch of
  \<open>TEMPORAL\<close>.
\<close>

definition SpikeEncoder_encode ::
  "'g std_random \<Rightarrow> SpikeEncoder \<Rightarrow> real list \<Rightarrow> real list \<Rightarrow> int
     \<Rightarrow> SpikeEncoder \<times> real list \<times> string list" where
  "SpikeEncoder_encode lib se input spike_trains batch_size =
     (case enc_type se of
        RATE \<Rightarrow> (se, encode_rate lib se input spike_trains batch_size, [])
      | LATENCY \<Rightarrow> (se, encode_latency se input spike_trains batch_size, [])
      | TEMPORAL \<Rightarrow> (se, spike_trains, [''Unsupported encoding type'']))"

subsection \<open>The latency code as the specification words it\<close>

text \<open>
  "Normalize input to [0,1] via (x+1)/2 clamped; spike_time = floor((1 - normalized) *
  num_steps), clamped to [0, num_steps-1]."
\<close>

definition normalized_input :: "real \<Rightarrow> real" where
  "normalized_input x = max 0 (min 1 ((x + 1) / 2))"


text \<open>
  The output array of \<open>encode_latency\<close> once the first \<open>m\<close> features, counted in the order
  of the two loops, have received their spike: the memset has cleared the first
  \<open>num_steps * batch_size * input_size\<close> elements, and feature \<open>q < m\<close> has a 1 at its
  spike time.
\<close>

definition latency_partial :: "SpikeEncoder \<Rightarrow> real list \<Rightarrow> real list \<Rightarrow> int \<Rightarrow> nat \<Rightarrow> real list" where
  "latency_partial se input st0 batch_size m =
     map (\<lambda>p. if p < nat (enc_num_steps se) * (nat batch_size * nat (enc_input_size se))
              then (if p mod (nat batch_size * nat (enc_input_size se)) < m
                       \<and> int (p div (nat batch_size * nat (enc_input_size se)))
                           = LatencyEncoder_encode \<lparr>lat_num_steps = enc_num_steps se\<rparr>
                               (input ! (p mod (nat batch_size * nat (enc_input_size se))))
                    then 1 else 0)
              else st0 ! p)
       [0..<length st0]"

subsection \<open>The rate code, draw by draw\<close>

text \<open>
  The engine after \<open>k\<close> draws, and the spike a draw from engine \<open>g\<close> gives for the input
  \<open>x\<close>: 1 when the number drawn is below \<open>sigmoid(gain * x)\<close>.
\<close>

definition rng_after :: "'g std_random \<Rightarrow> 'g \<Rightarrow> nat \<Rightarrow> 'g" where
  "rng_after lib g k = ((\<lambda>g. snd (uniform_real lib g)) ^^ k) g"

definition rate_spike :: "'g std_random \<Rightarrow> real \<Rightarrow> 'g \<Rightarrow> real \<Rightarrow> real" where
  "rate_spike lib gain g x = (if fst (uniform_real lib g) < 1 / (1 + exp (- gain * x)) then 1 else 0)"

text \<open>
  The state of the loops of \<open>encode_rate\<close> after \<open>k\<close> draws: the encoder made with the default
  arguments has advanced \<open>k\<close> times, and element \<open>p < k\<close> of the output holds the spike of
  draw \<open>p\<close> for the input of its feature.
\<close>

definition rate_partial ::
  "'g std_random \<Rightarrow> SpikeEncoder \<Rightarrow> real list \<Rightarrow> real list \<Rightarrow> int \<Rightarrow> nat
     \<Rightarrow> 'g RateEncoder \<times> real list" where
  "rate_partial lib se input st0 batch_size k =
     (\<lparr>rate_gain = 10, rate_rng = rng_after lib (mt19937 lib 42) k\<rparr>,
      map (\<lambda>p. if p < k
               then rate_spike lib 10 (rng_after lib (mt19937 lib 42) p)
                      (input ! (p mod (nat batch_size * nat (enc_input_size se))))
               else st0 ! p)
        [0..<length st0])"


definition lcg_random :: "nat std_random" where
  "lcg_random =
     \<lparr>mt19937 = unat,
      uniform_real = (\<lambda>g. (real (g mod 100) / 100, (g * 75 + 74) mod 65537))\<rparr>"

text \<open>A rate encoder of two steps and two features.\<close>

definition rate_2x2 :: SpikeEncoder where
  "rate_2x2 = \<lparr>enc_input_size = 2, enc_num_steps = 2, enc_type = RATE\<rparr>"

text \<open>
  The encoder and the two output arrays of \<open>TemporalContrastEncoder::encode\<close> after the
  first \<open>j\<close> features: an ON spike where the sample exceeds the stored one by more than
  the threshold, an OFF spike where it is below by more than the threshold, and the
  stored sample replaced in every case.
\<close>

definition tc_partial ::
  "TemporalContrastEncoder \<Rightarrow> real list \<Rightarrow> real list \<Rightarrow> real list \<Rightarrow> nat
     \<Rightarrow> TemporalContrastEncoder \<times> real list \<times> real list" where
  "tc_partial encoder input on_spikes off_spikes j =
     (encoder\<lparr>tc_prev_input :=
         map (\<lambda>p. if p < j then input ! p else tc_prev_input encoder ! p)
           [0..<length (tc_prev_input encoder)]\<rparr>,
      map (\<lambda>p. if p < j
               then (if input ! p - tc_prev_input encoder ! p > tc_threshold encoder then 1 else 0)
               else on_spikes ! p)
        [0..<length on_spikes],
      map (\<lambda>p. if p < j
               then (if \<not> input ! p - tc_prev_input encoder ! p > tc_threshold encoder
                        \<and> input ! p - tc_prev_input encoder ! p < - tc_threshold encoder then 1 else 0)
               else off_spikes ! p)
        [0..<length off_spikes])"

section \<open>Ring buffer (audiogen-lite ring_buffer.h, ring_buffer.cpp)\<close>

text \<open>
  The member functions \<open>write\<close>, \<open>read\<close>, \<open>available\<close>, \<open>remaining\<close>, \<open>clear\<close>, \<open>empty\<close> and
  \<open>full\<close> are \<open>rb_write\<close>, \<open>rb_read\<close> and so on. The two atomic cursors are plain fields: the statements here are about sequential
  histories of calls, one call at a time. The samples are of any type with a zero.
\<close>

record 'a RingBuffer =
  rb_buffer :: "'a list"
  rb_capacity :: size_t
  rb_write_pos :: size_t
  rb_read_pos :: size_t


text \<open>
  \<open>std::memcpy(dst + d, src + s, n * sizeof(float))\<close> on arrays of samples. A copy that
  leaves either array is undefined behaviour.
\<close>

definition memcpy :: "'a list \<Rightarrow> nat \<Rightarrow> 'a list \<Rightarrow> nat \<Rightarrow> nat \<Rightarrow> error + 'a list" where
  "memcpy dst d src s n =
     (if d + n \<le> length dst \<and> s + n \<le> length src
      then Inr (take d dst @ take n (drop s src) @ drop (d + n) dst)
      else Inl UndefinedBehaviour)"



definition rb_available :: "'a RingBuffer \<Rightarrow> size_t" where
  "rb_available rb =
     (let write_pos = rb_write_pos rb;
          read_pos = rb_read_pos rb
      in if write_pos \<ge> read_pos then write_pos - read_pos
         else rb_capacity rb - (read_pos - write_pos))"

definition rb_remaining :: "'a RingBuffer \<Rightarrow> size_t" where
  "rb_remaining rb = rb_capacity rb - rb_available rb - 1"



definition rb_full :: "'a RingBuffer \<Rightarrow> bool" where
  "rb_full rb \<longleftrightarrow> rb_remaining rb = 0"

subsection \<open>Sequential histories\<close>





subsection \<open>The invariant of a constructed buffer and the samples it holds\<close>

text \<open>
  The array has \<open>capacity_\<close> slots, at least one and few enough for the byte count of the
  allocation, and both cursors are below \<open>capacity_\<close>.
\<close>

definition rb_inv :: "'a RingBuffer \<Rightarrow> bool" where
  "rb_inv rb \<longleftrightarrow>
     length (rb_buffer rb) = unat (rb_capacity rb)
     \<and> 0 < unat (rb_capacity rb) \<and> unat (rb_capacity rb) \<le> 2 ^ 62
     \<and> rb_write_pos rb < rb_capacity rb \<and> rb_read_pos rb < rb_capacity rb"

text \<open>The unread samples, oldest first: from the read cursor, around the end of the array.\<close>

definition unread :: "'a RingBuffer \<Rightarrow> 'a list" where
  "unread rb =
     map (\<lambda>k. rb_buffer rb ! ((unat (rb_read_pos rb) + k) mod unat (rb_capacity rb)))
       [0..<unat (rb_available rb)]"

subsection \<open>The cursors and the two-chunk copies on natural numbers\<close>






text \<open>
  The loops are unfolded one step at a time in the proofs, never by the simplifier on
  its own.
\<close>

declare scalar_loop_i.simps [simp del] scalar_loop_o.simps [simp del] scalar_loop_b.simps [simp del]
declare neon_loop_vec.simps [simp del] neon_loop_tail.simps [simp del]
declare neon_loop_o.simps [simp del] neon_loop_b.simps [simp del]
declare update_neurons_loop.simps [simp del]
declare for_loop.simps [simp del]

section \<open>Properties of the dense kernels\<close>

subsection \<open>Which body each entry point reaches\<close>

lemma spike_dense_Neon_neon:
  "HAVE_NEON cfg \<Longrightarrow> spike_dense cfg Neon args = Some (neon_body args)"
  by (subst spike_dense.simps) simp

lemma spike_dense_Sme2_neon:
  "HAVE_NEON cfg \<Longrightarrow> spike_dense cfg Sme2 args = Some (neon_body args)"
  by (subst spike_dense.simps) (simp add: spike_dense_Neon_neon)

lemma spike_dense_Forward_neon:
  "HAVE_NEON cfg \<Longrightarrow> spike_dense cfg Forward args = Some (neon_body args)"
  by (subst spike_dense.simps) (simp add: spike_dense_Neon_neon spike_dense_Sme2_neon)

lemma spike_dense_Forward_scalar:
  "\<not> HAVE_NEON cfg \<Longrightarrow> \<not> HAVE_SME2 cfg \<Longrightarrow> spike_dense cfg Forward args = Some (scalar_body args)"
  by (subst spike_dense.simps) simp

lemma spike_dense_Neon_scalar:
  "\<not> HAVE_NEON cfg \<Longrightarrow> \<not> HAVE_SME2 cfg \<Longrightarrow> spike_dense cfg Neon args = Some (scalar_body args)"
  by (subst spike_dense.simps) (simp add: spike_dense_Forward_scalar)

lemma spike_dense_Sme2_scalar:
  "\<not> HAVE_NEON cfg \<Longrightarrow> \<not> HAVE_SME2 cfg \<Longrightarrow> spike_dense cfg Sme2 args = Some (scalar_body args)"
  by (subst spike_dense.simps) (simp add: spike_dense_Forward_scalar)

lemma spike_dense_Some_build:
  assumes "spike_dense cfg k args = Some y"
  shows "HAVE_SME2 cfg \<longrightarrow> HAVE_NEON cfg"
proof (rule spike_dense.raw_induct
    [where P = "\<lambda>cfg k args y. HAVE_SME2 cfg \<longrightarrow> HAVE_NEON cfg", OF _ assms])
  fix f :: "build \<Rightarrow> kernel \<Rightarrow> 'a dense_args \<Rightarrow> 'a list option" and cfg k args y
  assume IH: "\<And>cfg k args y. f cfg k args = Some y \<Longrightarrow> HAVE_SME2 cfg \<longrightarrow> HAVE_NEON cfg"
    and body: "(case k of
      Forward \<Rightarrow>
        if HAVE_SME2 cfg then f cfg Sme2 args
        else if HAVE_NEON cfg then f cfg Neon args
             else Some (scalar_body args)
      | Neon \<Rightarrow>
          if HAVE_NEON cfg then Some (neon_body args)
          else f cfg Forward args
      | Sme2 \<Rightarrow>
          if HAVE_SME2 cfg
          then if HAVE_NEON cfg then f cfg Neon args
               else f cfg Forward args
          else if HAVE_NEON cfg then f cfg Neon args
               else f cfg Forward args) = Some y"
  show "HAVE_SME2 cfg \<longrightarrow> HAVE_NEON cfg"
    using body IH [of cfg _ args y] by (cases k; simp split: if_splits; blast)
qed

lemma spike_dense_never_returns:
  "HAVE_SME2 cfg \<Longrightarrow> \<not> HAVE_NEON cfg \<Longrightarrow> spike_dense cfg k args = None"
  using spike_dense_Some_build [of cfg k args] by (cases "spike_dense cfg k args") auto

subsection \<open>Each row is the dense linear operator, in exact arithmetic\<close>







subsection \<open>The loops over the outputs and the batch\<close>










subsection \<open>The kernels as a whole\<close>




text \<open>
  In a build where the calls end, the SME2 entry and the NEON entry return what
  \<open>spike_dense_forward\<close> returns, whatever the arithmetic: each of them ends in the same body.
\<close>

lemma entry_points_agree:
  assumes "calls_return cfg"
  shows "spike_dense cfg Sme2 args = spike_dense cfg Neon args
       \<and> spike_dense cfg Neon args = spike_dense cfg Forward args
       \<and> spike_dense cfg Forward args \<noteq> None"
proof (cases "HAVE_NEON cfg")
  case True
  then show ?thesis
    by (simp add: spike_dense_Forward_neon spike_dense_Neon_neon spike_dense_Sme2_neon)
next
  case False
  with assms have "\<not> HAVE_SME2 cfg" by (simp add: calls_return_def)
  with False show ?thesis
    by (simp add: spike_dense_Forward_scalar spike_dense_Neon_scalar spike_dense_Sme2_scalar)
qed



text \<open>
  Claim C8. The claim asks that \<open>spike_dense_sme2\<close> return what the next tier returns,
  the scalar kernel when NEON is unavailable. In the build with \<open>HAVE_SME2\<close> and without
  \<open>HAVE_NEON\<close> the SME2 entry calls \<open>spike_dense_forward\<close>, which calls the SME2 entry
  again: on one spike, one weight and one output the call never returns, while the
  scalar loop on the same arguments gives \<open>[1]\<close>.
\<close>

theorem sme2_never_returns:
  "spike_dense_sme2 sme2_without_neon [1 :: real] [1] [0] [0] 1 1 1 = None
   \<and> scalar_kernel [1 :: real] [1] [0] [0] 1 1 1 = [1]"
proof -
  have "scalar_kernel [1 :: real] [1] [0] [0] 1 1 1 = [1]"
    by (simp add: scalar_kernel_def scalar_loop_b.simps scalar_loop_o.simps scalar_loop_i.simps)
  moreover have "spike_dense_sme2 sme2_without_neon [1 :: real] [1] [0] [0] 1 1 1 = None"
    by (simp add: spike_dense_sme2_def spike_dense_never_returns sme2_without_neon_def)
  ultimately show ?thesis by simp
qed


section \<open>Properties of the LIF layer\<close>

subsection \<open>The loop of \<open>update_neurons\<close>\<close>

lemma update_neurons_loop_done:
  "\<not> int i < lif_output_size L \<Longrightarrow> update_neurons_loop L si out i = (L, out)"
  by (simp add: update_neurons_loop.simps [of L si out i])

lemma update_neurons_loop_step:
  assumes "int i < lif_output_size L" "LIFLayer_inv L"
  shows "update_neurons_loop L si out i =
           update_neurons_loop (neuron_step L si i) si
             (out[i := if fires L si i then 1 else 0]) (Suc i)"
proof -
  have "i < length (lif_synaptic_current L)" "i < length (lif_membrane_potential L)"
    using assms by (simp_all add: LIFLayer_inv_def)
  then show ?thesis
    using assms(1)
    by (simp add: update_neurons_loop.simps [of L si out i] Let_def neuron_step_def fires_def
          decayed_potential_def decayed_current_def)
qed

lemma neuron_step_inv: "LIFLayer_inv L \<Longrightarrow> LIFLayer_inv (neuron_step L si i)"
  by (simp add: LIFLayer_inv_def neuron_step_def)

lemma neuron_step_frame:
  "lif_input_size (neuron_step L si i) = lif_input_size L"
  "lif_output_size (neuron_step L si i) = lif_output_size L"
  "lif_params (neuron_step L si i) = lif_params L"
  "lif_weights (neuron_step L si i) = lif_weights L"
  "lif_bias (neuron_step L si i) = lif_bias L"
  "lif_beta_mem (neuron_step L si i) = lif_beta_mem L"
  "lif_beta_syn (neuron_step L si i) = lif_beta_syn L"
  "length (lif_membrane_potential (neuron_step L si i)) = length (lif_membrane_potential L)"
  "length (lif_synaptic_current (neuron_step L si i)) = length (lif_synaptic_current L)"
  by (simp_all add: neuron_step_def)

lemma neuron_step_other:
  "j \<noteq> i \<Longrightarrow> lif_synaptic_current (neuron_step L si i) ! j = lif_synaptic_current L ! j"
  "j \<noteq> i \<Longrightarrow> lif_membrane_potential (neuron_step L si i) ! j = lif_membrane_potential L ! j"
  "j \<noteq> i \<Longrightarrow> decayed_current (neuron_step L si i) si j = decayed_current L si j"
  "j \<noteq> i \<Longrightarrow> decayed_potential (neuron_step L si i) si j = decayed_potential L si j"
  "j \<noteq> i \<Longrightarrow> fires (neuron_step L si i) si j = fires L si j"
  by (simp_all add: neuron_step_def decayed_current_def decayed_potential_def fires_def)

lemma update_neurons_loop_frame:
  assumes "LIFLayer_inv L"
    and "update_neurons_loop L si out i = (L', out')"
  shows "lif_input_size L' = lif_input_size L \<and> lif_output_size L' = lif_output_size L
     \<and> lif_params L' = lif_params L \<and> lif_weights L' = lif_weights L \<and> lif_bias L' = lif_bias L
     \<and> lif_beta_mem L' = lif_beta_mem L \<and> lif_beta_syn L' = lif_beta_syn L
     \<and> LIFLayer_inv L' \<and> length out' = length out"
  using assms
proof (induction "nat (lif_output_size L) - i" arbitrary: L out i)
  case 0
  then have "\<not> int i < lif_output_size L" by linarith
  with 0 show ?case by (simp add: update_neurons_loop_done)
next
  case (Suc k)
  then have lt: "int i < lif_output_size L" by linarith
  have k: "k = nat (lif_output_size (neuron_step L si i)) - Suc i"
    using Suc.hyps(2) by (simp add: neuron_step_frame)
  have "update_neurons_loop (neuron_step L si i) si (out[i := if fires L si i then 1 else 0]) (Suc i) = (L', out')"
    using Suc.prems(2) update_neurons_loop_step [OF lt Suc.prems(1)] by simp
  from Suc.hyps(1) [OF k neuron_step_inv [OF Suc.prems(1)] this]
  show ?case by (simp add: neuron_step_frame)
qed

lemma update_neurons_loop_outside:
  assumes "LIFLayer_inv L"
    and "update_neurons_loop L si out i = (L', out')"
    and "j < i \<or> nat (lif_output_size L) \<le> j"
  shows "lif_synaptic_current L' ! j = lif_synaptic_current L ! j
     \<and> lif_membrane_potential L' ! j = lif_membrane_potential L ! j
     \<and> out' ! j = out ! j"
  using assms
proof (induction "nat (lif_output_size L) - i" arbitrary: L out i)
  case 0
  then have "\<not> int i < lif_output_size L" by linarith
  with 0 show ?case by (simp add: update_neurons_loop_done)
next
  case (Suc k)
  then have lt: "int i < lif_output_size L" by linarith
  have k: "k = nat (lif_output_size (neuron_step L si i)) - Suc i"
    using Suc.hyps(2) by (simp add: neuron_step_frame)
  have ne: "j \<noteq> i" using Suc.prems(3) lt by linarith
  have j: "j < Suc i \<or> nat (lif_output_size (neuron_step L si i)) \<le> j"
    using Suc.prems(3) by (auto simp: neuron_step_frame)
  have "update_neurons_loop (neuron_step L si i) si (out[i := if fires L si i then 1 else 0]) (Suc i) = (L', out')"
    using Suc.prems(2) update_neurons_loop_step [OF lt Suc.prems(1)] by simp
  from Suc.hyps(1) [OF k neuron_step_inv [OF Suc.prems(1)] this j] ne
  show ?case by (simp add: neuron_step_other)
qed

lemma update_neurons_loop_inside:
  assumes "LIFLayer_inv L"
    and "nat (lif_output_size L) \<le> length out"
    and "update_neurons_loop L si out i = (L', out')"
    and "i \<le> j" "j < nat (lif_output_size L)"
  shows "lif_synaptic_current L' ! j = decayed_current L si j
     \<and> lif_membrane_potential L' ! j =
         (if fires L si j then v_reset (lif_params L) else decayed_potential L si j)
     \<and> out' ! j = (if fires L si j then 1 else 0)"
  using assms
proof (induction "nat (lif_output_size L) - i" arbitrary: L out i)
  case 0
  then show ?case by linarith
next
  case (Suc k)
  then have lt: "int i < lif_output_size L" by linarith
  then have li: "i < length (lif_synaptic_current L)"
    and lm: "i < length (lif_membrane_potential L)" and lo: "i < length out"
    using Suc.prems(1,2) by (simp_all add: LIFLayer_inv_def)
  have k: "k = nat (lif_output_size (neuron_step L si i)) - Suc i"
    using Suc.hyps(2) by (simp add: neuron_step_frame)
  have rec: "update_neurons_loop (neuron_step L si i) si (out[i := if fires L si i then 1 else 0]) (Suc i) = (L', out')"
    using Suc.prems(3) update_neurons_loop_step [OF lt Suc.prems(1)] by simp
  note inv' = neuron_step_inv [OF Suc.prems(1), of si i]
  show ?case
  proof (cases "j = i")
    case True
    from update_neurons_loop_outside [OF inv' rec, of i] li lm lo True
    show ?thesis by (simp add: neuron_step_def)
  next
    case False
    with Suc.prems(4) have "Suc i \<le> j" by simp
    from Suc.hyps(1) [OF k inv' _ rec this] Suc.prems(2,5) False
    show ?thesis by (simp add: neuron_step_frame neuron_step_other)
  qed
qed

subsection \<open>\<open>forward\<close> and \<open>reset\<close>\<close>

lemma forward_returns:
  fixes L :: "'a::{plus,times,ord,zero,one} LIFLayer"
  assumes "calls_return cfg"
  shows "\<exists>synaptic_input.
           compute_synaptic_input cfg L input_spikes (replicate (nat (lif_output_size L)) 0)
             = Some synaptic_input
         \<and> forward cfg L input_spikes output_spikes batch_size
             = Some (update_neurons L synaptic_input output_spikes)"
proof (cases "HAVE_NEON cfg")
  case True
  then show ?thesis
    by (simp add: forward_def compute_synaptic_input_def spike_dense_forward_def spike_dense_Forward_neon)
next
  case False
  with assms have "\<not> HAVE_SME2 cfg" by (simp add: calls_return_def)
  with False show ?thesis
    by (simp add: forward_def compute_synaptic_input_def spike_dense_forward_def spike_dense_Forward_scalar)
qed

text \<open>The invariant holds from the constructor on, and Scenario A is a constructed layer.\<close>

lemma LIFLayer_ctor_inv:
  "LIFLayer_ctor input_size output_size params = Inr L \<Longrightarrow> LIFLayer_inv L"
  by (auto simp: LIFLayer_ctor_def LIFLayer_inv_def split: if_splits)

lemma load_weights_inv:
  assumes "LIFLayer_inv L" "length (lif_weights L) \<le> length weights" "length (lif_bias L) \<le> length bias"
  shows "LIFLayer_inv (load_weights L weights bias)"
  using assms by (simp add: LIFLayer_inv_def load_weights_def)

lemma reset_inv: "LIFLayer_inv L \<Longrightarrow> LIFLayer_inv (reset L)"
  by (simp add: LIFLayer_inv_def reset_def)

lemma forward_inv:
  assumes "LIFLayer_inv L" "forward cfg L input_spikes output_spikes batch_size = Some (L', out')"
  shows "LIFLayer_inv L'"
  using assms update_neurons_loop_frame [OF assms(1)]
  by (auto simp: forward_def update_neurons_def split: option.splits)

lemma scenario_A_constructed:
  "\<exists>L. LIFLayer_ctor 4 2 LIFParams_default = Inr L
       \<and> load_weights L (replicate 8 (1 / 2)) [0, 0] = scenario_A"
  by (simp add: LIFLayer_ctor_def load_weights_def scenario_A_def LIFParams_default_def
        numeral_eq_Suc)

lemma scenario_A_inv: "LIFLayer_inv scenario_A"
  by (simp add: LIFLayer_inv_def scenario_A_def)


text \<open>
  Claim C4. After \<open>reset\<close> every membrane potential is \<open>v_rest\<close> and every synaptic
  current is 0, and a second \<open>reset\<close> changes nothing: the layer after two calls is the layer
  after one.
\<close>

theorem reset_restores_rest_state:
  "lif_membrane_potential (reset L)
     = replicate (length (lif_membrane_potential L)) (v_rest (lif_params L))
   \<and> lif_synaptic_current (reset L) = replicate (length (lif_synaptic_current L)) 0
   \<and> reset (reset L) = reset L"
  by (simp add: reset_def map_replicate_const)

text \<open>
  Claim C5. In a build where the kernel call returns, \<open>forward\<close> on a layer that satisfies
  the constructor's invariant returns, and each of the \<open>output_size_\<close> elements it writes to
  \<open>output_spikes\<close> is 0 or 1; the rest of the caller's array is as it was. The statement
  holds for every arithmetic on the samples.
\<close>

theorem forward_output_binary:
  fixes L :: "'a::{plus,times,ord,zero,one} LIFLayer"
  assumes build: "calls_return cfg"
    and inv: "LIFLayer_inv L"
    and inp: "nat (lif_input_size L) \<le> length input_spikes"
    and out: "nat (lif_output_size L) \<le> length output_spikes"
  shows "\<exists>L' out'. forward cfg L input_spikes output_spikes batch_size = Some (L', out')
           \<and> length out' = length output_spikes
           \<and> set (take (nat (lif_output_size L)) out') \<subseteq> {0, 1}
           \<and> drop (nat (lif_output_size L)) out' = drop (nat (lif_output_size L)) output_spikes"
proof -
  from forward_returns [OF build] obtain si where
    fw: "forward cfg L input_spikes output_spikes batch_size = Some (update_neurons L si output_spikes)"
    by blast
  obtain L' out' where r: "update_neurons_loop L si output_spikes 0 = (L', out')"
    by (cases "update_neurons_loop L si output_spikes 0") auto
  from update_neurons_loop_frame [OF inv r] have len: "length out' = length output_spikes" by simp
  have "x \<in> {0, 1}" if "x \<in> set (take (nat (lif_output_size L)) out')" for x
  proof -
    from that obtain j where j: "j < nat (lif_output_size L)" "j < length out'" "x = out' ! j"
      by (auto simp: in_set_conv_nth)
    from update_neurons_loop_inside [OF inv out r _ j(1)] j(3) show ?thesis by auto
  qed
  moreover have "drop (nat (lif_output_size L)) out' = drop (nat (lif_output_size L)) output_spikes"
  proof (rule nth_equalityI)
    show "length (drop (nat (lif_output_size L)) out') = length (drop (nat (lif_output_size L)) output_spikes)"
      using len by simp
  next
    fix k assume "k < length (drop (nat (lif_output_size L)) out')"
    then show "drop (nat (lif_output_size L)) out' ! k = drop (nat (lif_output_size L)) output_spikes ! k"
      using update_neurons_loop_outside [OF inv r, of "nat (lif_output_size L) + k"] len out
      by simp
  qed
  ultimately show ?thesis
    using fw r len by (auto simp: update_neurons_def)
qed

theorem forward_output_binary_witness:
  "calls_return \<lparr>HAVE_NEON = True, HAVE_SME2 = True\<rparr>
   \<and> LIFLayer_inv scenario_A
   \<and> nat (lif_input_size scenario_A) \<le> length [1, 0, 0, 1 :: real]
   \<and> nat (lif_output_size scenario_A) \<le> length [5, 5, 5 :: real]
   \<and> (\<exists>L' out'. forward \<lparr>HAVE_NEON = True, HAVE_SME2 = True\<rparr> scenario_A [1, 0, 0, 1] [5, 5, 5] 1 = Some (L', out')
           \<and> length out' = length [5, 5, 5 :: real]
           \<and> set (take (nat (lif_output_size scenario_A)) out') \<subseteq> {0, 1}
           \<and> drop (nat (lif_output_size scenario_A)) out' = drop (nat (lif_output_size scenario_A)) [5, 5, 5])"
proof -
  have b: "calls_return \<lparr>HAVE_NEON = True, HAVE_SME2 = True\<rparr>"
    by (simp add: calls_return_def)
  have i: "nat (lif_input_size scenario_A) \<le> length [1, 0, 0, 1 :: real]"
    and o: "nat (lif_output_size scenario_A) \<le> length [5, 5, 5 :: real]"
    by (simp_all add: scenario_A_def)
  from forward_output_binary [OF b scenario_A_inv i o, of 1] b scenario_A_inv i o
  show ?thesis by blast
qed






section \<open>Properties of the spike encoders\<close>

subsection \<open>The counted loop\<close>

lemma for_loop_fold: "for_loop n body i s = fold body [i..<nat n] s"
proof (induction "nat n - i" arbitrary: i s)
  case 0
  then have "\<not> int i < n" by linarith
  moreover from 0 have "[i..<nat n] = []" by simp
  ultimately show ?case by (simp add: for_loop.simps [of n body i s])
next
  case (Suc m)
  then have lt: "int i < n" by linarith
  then have "i < nat n" by linarith
  then have "[i..<nat n] = i # [Suc i..<nat n]" by (simp add: upt_conv_Cons)
  moreover have "m = nat n - Suc i" using Suc.hyps(2) by simp
  ultimately show ?case
    using lt Suc.hyps(1) by (simp add: for_loop.simps [of n body i s])
qed

lemma static_cast_int_nonneg: "0 \<le> x \<Longrightarrow> static_cast_int x = \<lfloor>x\<rfloor>"
  by (simp add: static_cast_int_def)

lemma normalized_input_range: "0 \<le> normalized_input x" "normalized_input x \<le> 1"
  by (simp_all add: normalized_input_def)


lemma LatencyEncoder_encode_floor:
  assumes "0 \<le> lat_num_steps e"
  shows "LatencyEncoder_encode e x
           = min \<lfloor>(1 - normalized_input x) * real_of_int (lat_num_steps e)\<rfloor> (lat_num_steps e - 1)"
proof -
  have "0 \<le> (1 - normalized_input x) * real_of_int (lat_num_steps e)"
    using assms normalized_input_range [of x] by simp
  then show ?thesis
    by (simp add: LatencyEncoder_encode_def Let_def normalized_input_def [symmetric] static_cast_int_nonneg)
qed

lemma LatencyEncoder_encode_range:
  assumes "0 < lat_num_steps e"
  shows "0 \<le> LatencyEncoder_encode e x" "LatencyEncoder_encode e x \<le> lat_num_steps e - 1"
proof -
  have "0 \<le> (1 - normalized_input x) * real_of_int (lat_num_steps e)"
    using assms normalized_input_range [of x] by simp
  then have "0 \<le> \<lfloor>(1 - normalized_input x) * real_of_int (lat_num_steps e)\<rfloor>" by simp
  then show "0 \<le> LatencyEncoder_encode e x" "LatencyEncoder_encode e x \<le> lat_num_steps e - 1"
    using assms by (simp_all add: LatencyEncoder_encode_floor)
qed





lemma latency_partial_length: "length (latency_partial se input st0 B m) = length st0"
  by (simp add: latency_partial_def)

lemma memset_zero_partial:
  assumes "0 \<le> enc_num_steps se" "0 \<le> B" "0 \<le> enc_input_size se"
    and "nat (enc_num_steps se) * (nat B * nat (enc_input_size se)) \<le> length st0"
  shows "memset_zero st0 (nat (enc_num_steps se * B * enc_input_size se))
           = latency_partial se input st0 B 0"
proof -
  have n: "nat (enc_num_steps se * B * enc_input_size se)
             = nat (enc_num_steps se) * (nat B * nat (enc_input_size se))"
    using assms(1-3) by (simp add: nat_mult_distrib mult.assoc)
  show ?thesis
    unfolding n
    by (rule nth_equalityI)
      (use assms(4) in \<open>auto simp: memset_zero_def latency_partial_def nth_append\<close>)
qed

lemma latency_step:
  assumes T: "0 < enc_num_steps se" and b: "b < nat B" and i: "i < nat (enc_input_size se)"
    and len: "nat (enc_num_steps se) * (nat B * nat (enc_input_size se)) \<le> length st0"
  shows "(let spike_time = LatencyEncoder_encode \<lparr>lat_num_steps = enc_num_steps se\<rparr>
                             (input ! nat (int b * enc_input_size se + int i));
              idx = spike_time * B * enc_input_size se + int b * enc_input_size se + int i
          in if 0 \<le> idx
             then (latency_partial se input st0 B (b * nat (enc_input_size se) + i))[nat idx := 1]
             else latency_partial se input st0 B (b * nat (enc_input_size se) + i))
           = latency_partial se input st0 B (Suc (b * nat (enc_input_size se) + i))"
proof -
  define st where "st = latency_partial se input st0 B (b * nat (enc_input_size se) + i)"
  define spike_time where "spike_time = LatencyEncoder_encode \<lparr>lat_num_steps = enc_num_steps se\<rparr>
                           (input ! nat (int b * enc_input_size se + int i))"
  define idx where "idx = spike_time * B * enc_input_size se + int b * enc_input_size se + int i"
  define N where "N = nat (enc_input_size se)"
  define BN where "BN = nat B * N"
  define m where "m = b * N + i"
  define s where "s = nat spike_time"
  have Bpos: "0 < B" and Npos: "0 < enc_input_size se" using b i by linarith+
  have iN: "int N = enc_input_size se" and iB: "int (nat B) = B"
    using Bpos Npos by (simp_all add: N_def)
  have inp: "nat (int b * enc_input_size se + int i) = m"
    using i by (simp add: m_def N_def nat_add_distrib nat_mult_distrib)
  have "Suc b \<le> nat B" using b by simp
  then have "Suc b * N \<le> nat B * N" by (rule mult_le_mono1)
  then have mBN: "m < BN" using i by (simp add: m_def BN_def N_def)
  have range: "0 \<le> spike_time" "spike_time \<le> enc_num_steps se - 1"
    using LatencyEncoder_encode_range [of "\<lparr>lat_num_steps = enc_num_steps se\<rparr>"] T
    by (simp_all add: spike_time_def)
  then have sT: "s < nat (enc_num_steps se)" and int_s: "int s = spike_time"
    by (simp_all add: s_def)
  have "idx = int s * (int (nat B) * int N) + int m"
    unfolding iN iB int_s idx_def m_def by (simp add: iN algebra_simps)
  then have idx: "idx = int (s * BN + m)" by (simp add: BN_def)
  then have idx0: "0 \<le> idx" and nidx: "nat idx = s * BN + m"
    by (simp_all only: nat_int of_nat_0_le_iff)
  have "Suc s \<le> nat (enc_num_steps se)" using sT by simp
  then have "Suc s * BN \<le> nat (enc_num_steps se) * BN" by (rule mult_le_mono1)
  then have inT: "s * BN + m < nat (enc_num_steps se) * BN" using mBN by simp
  have tm: "spike_time = LatencyEncoder_encode \<lparr>lat_num_steps = enc_num_steps se\<rparr> (input ! m)"
    by (simp add: spike_time_def inp)
  have "st[s * BN + m := 1] = latency_partial se input st0 B (Suc m)"
  proof (rule nth_equalityI)
    show "length (st[s * BN + m := 1]) = length (latency_partial se input st0 B (Suc m))"
      by (simp add: st_def latency_partial_length)
  next
    fix p assume "p < length (st[s * BN + m := 1])"
    then have p: "p < length st0" by (simp add: st_def latency_partial_length)
    show "st[s * BN + m := 1] ! p = latency_partial se input st0 B (Suc m) ! p"
    proof (cases "p = s * BN + m")
      case True
      then have "p mod BN = m" "p div BN = s" using mBN by simp_all
      then show ?thesis
        using True p inT tm int_s
        by (simp add: st_def latency_partial_def BN_def [symmetric] N_def [symmetric])
    next
      case False
      have "\<not> (p mod BN = m \<and> int (p div BN) = spike_time)"
      proof
        assume "p mod BN = m \<and> int (p div BN) = spike_time"
        then have "p mod BN = m" "p div BN = s" using int_s by simp_all
        then have "p = s * BN + m" using div_mult_mod_eq [of p BN] by simp
        with False show False by simp
      qed
      then have "(p mod BN < Suc m \<and> int (p div BN)
                     = LatencyEncoder_encode \<lparr>lat_num_steps = enc_num_steps se\<rparr> (input ! (p mod BN)))
               \<longleftrightarrow> (p mod BN < m \<and> int (p div BN)
                     = LatencyEncoder_encode \<lparr>lat_num_steps = enc_num_steps se\<rparr> (input ! (p mod BN)))"
        using tm by (auto simp: less_Suc_eq)
      then show ?thesis
        using False p
        by (simp add: st_def latency_partial_def BN_def [symmetric] N_def [symmetric] m_def [symmetric])
    qed
  qed
  then show ?thesis
    using idx0 nidx
    by (simp add: Let_def spike_time_def [symmetric] idx_def [symmetric] st_def [symmetric]
          m_def N_def)
qed

subsection \<open>The loops of \<open>encode_latency\<close>\<close>

lemma latency_inner_loop:
  assumes T: "0 < enc_num_steps se" and b: "b < nat B" and j: "j \<le> nat (enc_input_size se)"
    and len: "nat (enc_num_steps se) * (nat B * nat (enc_input_size se)) \<le> length st0"
  shows "fold (\<lambda>i st.
                let spike_time = LatencyEncoder_encode \<lparr>lat_num_steps = enc_num_steps se\<rparr>
                                   (input ! nat (int b * enc_input_size se + int i));
                    idx = spike_time * B * enc_input_size se + int b * enc_input_size se + int i
                in if 0 \<le> idx then st[nat idx := 1] else st)
           [0..<j] (latency_partial se input st0 B (b * nat (enc_input_size se)))
         = latency_partial se input st0 B (b * nat (enc_input_size se) + j)"
    (is "?body_fold j = _")
  using j
proof (induction j)
  case 0
  show ?case by simp
next
  case (Suc j)
  then have lt: "j < nat (enc_input_size se)" and IH: "?body_fold j = latency_partial se input st0 B (b * nat (enc_input_size se) + j)"
    by simp_all
  show ?case
    unfolding upt_Suc_append [OF le0] fold_append comp_apply IH fold_simps
    using latency_step [OF T b lt len, of input] by simp
qed

lemma latency_outer_loop:
  assumes T: "0 < enc_num_steps se" and c: "c \<le> nat B"
    and len: "nat (enc_num_steps se) * (nat B * nat (enc_input_size se)) \<le> length st0"
  shows "fold (\<lambda>b. for_loop (enc_input_size se)
             (\<lambda>i st.
                let spike_time = LatencyEncoder_encode \<lparr>lat_num_steps = enc_num_steps se\<rparr>
                                   (input ! nat (int b * enc_input_size se + int i));
                    idx = spike_time * B * enc_input_size se + int b * enc_input_size se + int i
                in if 0 \<le> idx then st[nat idx := 1] else st)
             0)
           [0..<c] (latency_partial se input st0 B 0)
         = latency_partial se input st0 B (c * nat (enc_input_size se))"
    (is "?body_fold c = _")
  using c
proof (induction c)
  case 0
  show ?case by simp
next
  case (Suc c)
  then have lt: "c < nat B" and IH: "?body_fold c = latency_partial se input st0 B (c * nat (enc_input_size se))"
    by simp_all
  show ?case
    unfolding upt_Suc_append [OF le0] fold_append comp_apply IH
    unfolding fold_simps for_loop_fold
    using latency_inner_loop [OF T lt order_refl len, of input] by (simp add: add.commute)
qed

lemma encode_latency_partial:
  assumes "0 < enc_num_steps se" "0 \<le> B" "0 \<le> enc_input_size se"
    and "nat (enc_num_steps se) * (nat B * nat (enc_input_size se)) \<le> length st0"
  shows "encode_latency se input st0 B
           = latency_partial se input st0 B (nat B * nat (enc_input_size se))"
proof -
  have "0 \<le> enc_num_steps se" using assms(1) by simp
  from memset_zero_partial [OF this assms(2,3,4), of input]
    latency_outer_loop [OF assms(1) order_refl assms(4), of input]
  show ?thesis
    by (simp add: encode_latency_def Let_def for_loop_fold)
qed


lemma encode_latency_outside:
  assumes T: "0 < enc_num_steps se" and B: "0 \<le> B" and N: "0 \<le> enc_input_size se"
    and len: "nat (enc_num_steps se) * (nat B * nat (enc_input_size se)) \<le> length st0"
  shows "length (encode_latency se input st0 B) = length st0
       \<and> drop (nat (enc_num_steps se) * (nat B * nat (enc_input_size se))) (encode_latency se input st0 B)
           = drop (nat (enc_num_steps se) * (nat B * nat (enc_input_size se))) st0"
  unfolding encode_latency_partial [OF T B N len]
  by (auto simp: latency_partial_def intro!: nth_equalityI)

subsection \<open>The loops of \<open>encode_rate\<close>\<close>

lemma rng_after_Suc: "rng_after lib g (Suc k) = snd (uniform_real lib (rng_after lib g k))"
  by (simp add: rng_after_def)

lemma rate_partial_0: "rate_partial lib se input st0 B 0 = (RateEncoder_default lib, st0)"
  by (simp add: rate_partial_def RateEncoder_default_def RateEncoder_ctor_def rng_after_def map_nth)

lemma rate_step:
  assumes b: "b < nat B" and i: "i < nat (enc_input_size se)"
  shows "(\<lambda>(encoder, st).
              let idx = int t * B * enc_input_size se + int b * enc_input_size se + int i;
                  (v, encoder') =
                     RateEncoder_encode lib encoder (input ! nat (int b * enc_input_size se + int i))
              in (encoder', st[nat idx := v]))
           (rate_partial lib se input st0 B (t * (nat B * nat (enc_input_size se)) + b * nat (enc_input_size se) + i))
         = rate_partial lib se input st0 B (Suc (t * (nat B * nat (enc_input_size se)) + b * nat (enc_input_size se) + i))"
proof -
  define N where "N = nat (enc_input_size se)"
  define BN where "BN = nat B * N"
  define m where "m = b * N + i"
  define k where "k = t * BN + b * N + i"
  define g where "g = rng_after lib (mt19937 lib 42) k"
  have Bpos: "0 < B" and Npos: "0 < enc_input_size se" using b i by linarith+
  have iN: "int N = enc_input_size se" and iB: "int (nat B) = B"
    using Bpos Npos by (simp_all add: N_def)
  have inp: "nat (int b * enc_input_size se + int i) = m"
    using i by (simp add: m_def N_def nat_add_distrib nat_mult_distrib)
  have "Suc b \<le> nat B" using b by simp
  then have "Suc b * N \<le> nat B * N" by (rule mult_le_mono1)
  then have mBN: "m < BN" using i by (simp add: m_def BN_def N_def)
  have "int t * B * enc_input_size se + int b * enc_input_size se + int i
          = int t * (int (nat B) * int N) + int m"
    unfolding iN iB m_def by (simp add: iN algebra_simps)
  then have idx: "nat (int t * B * enc_input_size se + int b * enc_input_size se + int i) = k"
    by (simp add: BN_def k_def m_def nat_add_distrib nat_mult_distrib)
  have "k = t * BN + m" by (simp add: k_def m_def)
  then have kmod: "k mod BN = m" using mBN by simp
  have st: "(map (\<lambda>p. if p < k then rate_spike lib 10 (rng_after lib (mt19937 lib 42) p) (input ! (p mod BN))
                      else st0 ! p) [0..<length st0])
              [k := rate_spike lib 10 g (input ! m)]
          = map (\<lambda>p. if p < Suc k then rate_spike lib 10 (rng_after lib (mt19937 lib 42) p) (input ! (p mod BN))
                      else st0 ! p) [0..<length st0]"
    by (rule nth_equalityI) (auto simp: nth_list_update less_Suc_eq g_def kmod)
  have enc: "RateEncoder_encode lib \<lparr>rate_gain = 10, rate_rng = g\<rparr> (input ! m)
               = (rate_spike lib 10 g (input ! m),
                  \<lparr>rate_gain = 10, rate_rng = rng_after lib (mt19937 lib 42) (Suc k)\<rparr>)"
    by (simp add: RateEncoder_encode_def rate_spike_def rng_after_Suc g_def split_beta)
  show ?thesis
    unfolding rate_partial_def N_def [symmetric] BN_def [symmetric]
    using st enc
    by (simp add: idx inp k_def [symmetric] g_def [symmetric])
qed


lemma rate_inner_loop:
  assumes b: "b < nat B" and j: "j \<le> nat (enc_input_size se)"
  shows "fold (\<lambda>i (encoder, st).
              let idx = int t * B * enc_input_size se + int b * enc_input_size se + int i;
                  (v, encoder') =
                     RateEncoder_encode lib encoder (input ! nat (int b * enc_input_size se + int i))
              in (encoder', st[nat idx := v]))
           [0..<j]
           (rate_partial lib se input st0 B (t * (nat B * nat (enc_input_size se)) + b * nat (enc_input_size se)))
         = rate_partial lib se input st0 B (t * (nat B * nat (enc_input_size se)) + b * nat (enc_input_size se) + j)"
    (is "?body_fold j = _")
  using j
proof (induction j)
  case 0
  show ?case by simp
next
  case (Suc j)
  then have lt: "j < nat (enc_input_size se)"
    and IH: "?body_fold j = rate_partial lib se input st0 B
               (t * (nat B * nat (enc_input_size se)) + b * nat (enc_input_size se) + j)"
    by simp_all
  show ?case
    unfolding upt_Suc_append [OF le0] fold_append comp_apply IH
    unfolding fold_simps
    using rate_step [OF b lt] by simp
qed

lemma rate_middle_loop:
  assumes c: "c \<le> nat B"
  shows "fold (\<lambda>b. for_loop (enc_input_size se)
           (\<lambda>i (encoder, st).
              let idx = int t * B * enc_input_size se + int b * enc_input_size se + int i;
                  (v, encoder') =
                     RateEncoder_encode lib encoder (input ! nat (int b * enc_input_size se + int i))
              in (encoder', st[nat idx := v]))
           0)
           [0..<c]
           (rate_partial lib se input st0 B (t * (nat B * nat (enc_input_size se))))
         = rate_partial lib se input st0 B (t * (nat B * nat (enc_input_size se)) + c * nat (enc_input_size se))"
    (is "?body_fold c = _")
  using c
proof (induction c)
  case 0
  show ?case by simp
next
  case (Suc c)
  then have lt: "c < nat B"
    and IH: "?body_fold c = rate_partial lib se input st0 B
               (t * (nat B * nat (enc_input_size se)) + c * nat (enc_input_size se))"
    by simp_all
  show ?case
    unfolding upt_Suc_append [OF le0] fold_append comp_apply IH
    unfolding fold_simps for_loop_fold
    using rate_inner_loop [OF lt order_refl, where t = t and lib = lib and input = input and ?st0.0 = st0]
    by (simp add: add_ac)
qed

lemma rate_outer_loop:
  "fold (\<lambda>t. for_loop B
         (\<lambda>b. for_loop (enc_input_size se)
           (\<lambda>i (encoder, st).
              let idx = int t * B * enc_input_size se + int b * enc_input_size se + int i;
                  (v, encoder') =
                     RateEncoder_encode lib encoder (input ! nat (int b * enc_input_size se + int i))
              in (encoder', st[nat idx := v]))
           0)
         0)
      [0..<s] (rate_partial lib se input st0 B 0)
    = rate_partial lib se input st0 B (s * (nat B * nat (enc_input_size se)))"
  (is "?body_fold s = _")
proof (induction s)
  case 0
  show ?case by simp
next
  case (Suc s)
  show ?case
    unfolding upt_Suc_append [OF le0] fold_append comp_apply Suc
    unfolding fold_simps for_loop_fold [of B]
    using rate_middle_loop [OF order_refl, where B = B and se = se and t = s and lib = lib and input = input and ?st0.0 = st0]
    by (simp add: add_ac)
qed

lemma encode_rate_partial:
  "encode_rate lib se input st0 B
     = snd (rate_partial lib se input st0 B
              (nat (enc_num_steps se) * (nat B * nat (enc_input_size se))))"
  unfolding encode_rate_def for_loop_fold [of "enc_num_steps se"]
  by (simp only: rate_partial_0 [symmetric, where se = se and input = input and B = B] rate_outer_loop)

lemma encode_rate_length: "length (encode_rate lib se input st0 B) = length st0"
  by (simp add: encode_rate_partial rate_partial_def)

lemma encode_rate_nth:
  assumes "k < nat (enc_num_steps se) * (nat B * nat (enc_input_size se))" "k < length st0"
  shows "encode_rate lib se input st0 B ! k
           = rate_spike lib 10 (rng_after lib (mt19937 lib 42) k)
               (input ! (k mod (nat B * nat (enc_input_size se))))"
  using assms by (simp add: encode_rate_partial rate_partial_def)

lemma encode_rate_outside:
  assumes "nat (enc_num_steps se) * (nat B * nat (enc_input_size se)) \<le> k" "k < length st0"
  shows "encode_rate lib se input st0 B ! k = st0 ! k"
  using assms by (simp add: encode_rate_partial rate_partial_def)

subsection \<open>The loop of \<open>TemporalContrastEncoder::encode\<close>\<close>

lemma TemporalContrastEncoder_ctor_length:
  "length (tc_prev_input (TemporalContrastEncoder_ctor input_size threshold)) = nat input_size"
  by (simp add: TemporalContrastEncoder_ctor_def)


lemma tc_partial_0: "tc_partial encoder input on_spikes off_spikes 0 = (encoder, on_spikes, off_spikes)"
  by (simp add: tc_partial_def map_nth)

lemma tc_step:
  assumes "j < length (tc_prev_input encoder)"
  shows "(\<lambda>(enc, on, off).
          let delta = input ! j - tc_prev_input enc ! j;
              (on', off') =
                (if delta > tc_threshold enc then (on[j := 1], off[j := 0])
                 else if delta < - tc_threshold enc then (on[j := 0], off[j := 1])
                 else (on[j := 0], off[j := 0]))
          in (enc\<lparr>tc_prev_input := (tc_prev_input enc)[j := input ! j]\<rparr>, on', off'))
         (tc_partial encoder input on_spikes off_spikes j)
       = tc_partial encoder input on_spikes off_spikes (Suc j)"
proof -
  have upd: "(map (\<lambda>p. if p < j then f p else xs ! p) [0..<length xs])[j := f j]
               = map (\<lambda>p. if p < j \<or> p = j then f p else xs ! p) [0..<length xs]"
    for f :: "nat \<Rightarrow> real" and xs
    by (rule nth_equalityI) (auto simp: nth_list_update)
  show ?thesis
    using assms
    by (auto simp: tc_partial_def Let_def nth_list_update less_Suc_eq upd intro!: nth_equalityI)
qed

lemma TemporalContrastEncoder_encode_partial:
  assumes "nat (tc_input_size encoder) \<le> length (tc_prev_input encoder)"
  shows "TemporalContrastEncoder_encode encoder input on_spikes off_spikes
           = tc_partial encoder input on_spikes off_spikes (nat (tc_input_size encoder))"
proof -
  have "fold (\<lambda>i (enc, on, off).
          let delta = input ! i - tc_prev_input enc ! i;
              (on', off') =
                (if delta > tc_threshold enc then (on[i := 1], off[i := 0])
                 else if delta < - tc_threshold enc then (on[i := 0], off[i := 1])
                 else (on[i := 0], off[i := 0]))
          in (enc\<lparr>tc_prev_input := (tc_prev_input enc)[i := input ! i]\<rparr>, on', off'))
        [0..<j] (tc_partial encoder input on_spikes off_spikes 0)
      = tc_partial encoder input on_spikes off_spikes j"
    (is "?body_fold j = _")
    if "j \<le> length (tc_prev_input encoder)" for j
    using that
  proof (induction j)
    case 0
    show ?case by simp
  next
    case (Suc j)
    then have lt: "j < length (tc_prev_input encoder)"
      and IH: "?body_fold j = tc_partial encoder input on_spikes off_spikes j"
      by simp_all
    show ?case
      unfolding upt_Suc_append [OF le0] fold_append comp_apply IH
      unfolding fold_simps
      using tc_step [OF lt] by simp
  qed
  from this [OF assms] show ?thesis
    by (simp add: TemporalContrastEncoder_encode_def for_loop_fold tc_partial_0)
qed


subsection \<open>The claims on the encoders\<close>



text \<open>
  Claim C9. For two encoders of the same shape set to \<open>RATE\<close> (or one encoder called twice:
  the call returns the encoder as it was) and the same input, whatever the two output
  arrays held before, both calls return and their first \<open>num_steps * batch_size * input_size\<close>
  elements are equal; the elements after them are untouched. Element \<open>k\<close> is 1 exactly when
  draw number \<open>k\<close> of an engine seeded with 42 is below \<open>sigmoid(10 * input)\<close> for the
  feature of \<open>k\<close>.
\<close>

theorem rate_encoding_deterministic:
  assumes ty: "enc_type se1 = RATE" "enc_type se2 = RATE"
    and shape: "enc_input_size se2 = enc_input_size se1" "enc_num_steps se2 = enc_num_steps se1"
    and n: "n = nat (enc_num_steps se1) * (nat batch_size * nat (enc_input_size se1))"
    and len: "n \<le> length st1" "n \<le> length st2"
    and inp: "nat batch_size * nat (enc_input_size se1) \<le> length input"
    and k: "k < n"
  shows "\<exists>out1 out2.
           SpikeEncoder_encode lib se1 input st1 batch_size = (se1, out1, [])
         \<and> SpikeEncoder_encode lib se2 input st2 batch_size = (se2, out2, [])
         \<and> take n out1 = take n out2
         \<and> drop n out1 = drop n st1
         \<and> out1 ! k
             = (if fst (uniform_real lib (rng_after lib (mt19937 lib 42) k))
                     < 1 / (1 + exp (- 10 * input ! (k mod (nat batch_size * nat (enc_input_size se1)))))
                then 1 else 0)"
proof -
  let ?o1 = "encode_rate lib se1 input st1 batch_size"
  let ?o2 = "encode_rate lib se2 input st2 batch_size"
  have e1: "SpikeEncoder_encode lib se1 input st1 batch_size = (se1, ?o1, [])"
    and e2: "SpikeEncoder_encode lib se2 input st2 batch_size = (se2, ?o2, [])"
    by (simp_all add: SpikeEncoder_encode_def ty)
  have t: "take n ?o1 = take n ?o2"
  proof (rule nth_equalityI)
    show "length (take n ?o1) = length (take n ?o2)"
      using len by (simp add: encode_rate_length)
  next
    fix p assume "p < length (take n ?o1)"
    then have p: "p < n" by simp
    with len have "p < length st1" "p < length st2" by simp_all
    with p show "take n ?o1 ! p = take n ?o2 ! p"
      by (simp add: encode_rate_nth n shape)
  qed
  have d: "drop n ?o1 = drop n st1"
  proof (rule nth_equalityI)
    show "length (drop n ?o1) = length (drop n st1)" by (simp add: encode_rate_length)
  next
    fix p assume "p < length (drop n ?o1)"
    then have "n + p < length st1" by (simp add: encode_rate_length)
    then show "drop n ?o1 ! p = drop n st1 ! p"
      using len by (simp add: encode_rate_length encode_rate_outside n)
  qed
  have "k < length st1" using k len by simp
  with k have v: "?o1 ! k
             = (if fst (uniform_real lib (rng_after lib (mt19937 lib 42) k))
                     < 1 / (1 + exp (- 10 * input ! (k mod (nat batch_size * nat (enc_input_size se1)))))
                then 1 else 0)"
    by (simp add: encode_rate_nth n rate_spike_def)
  show ?thesis
    by (intro exI conjI) (rule e1 e2 t d v)+
qed

theorem rate_encoding_deterministic_witness:
  "enc_type rate_2x2 = RATE
   \<and> (4::nat) = nat (enc_num_steps rate_2x2) * (nat 1 * nat (enc_input_size rate_2x2))
   \<and> (4::nat) \<le> length [9, 9, 9, 9, 9 :: real] \<and> (4::nat) \<le> length [8, 8, 8, 8 :: real]
   \<and> nat 1 * nat (enc_input_size rate_2x2) \<le> length [0, 1 :: real]
   \<and> (\<exists>out1 out2.
           SpikeEncoder_encode lcg_random rate_2x2 [0, 1] [9, 9, 9, 9, 9] 1 = (rate_2x2, out1, [])
         \<and> SpikeEncoder_encode lcg_random rate_2x2 [0, 1] [8, 8, 8, 8] 1 = (rate_2x2, out2, [])
         \<and> take 4 out1 = take 4 out2
         \<and> drop 4 out1 = [9]
         \<and> out1 ! 0 = 1)"
proof -
  have h: "enc_type rate_2x2 = RATE" "enc_input_size rate_2x2 = enc_input_size rate_2x2"
    "enc_num_steps rate_2x2 = enc_num_steps rate_2x2"
    "(4::nat) = nat (enc_num_steps rate_2x2) * (nat 1 * nat (enc_input_size rate_2x2))"
    "(4::nat) \<le> length [9, 9, 9, 9, 9 :: real]" "(4::nat) \<le> length [8, 8, 8, 8 :: real]"
    "nat 1 * nat (enc_input_size rate_2x2) \<le> length [0, 1 :: real]"
    "(0::nat) < 4"
    by (simp_all add: rate_2x2_def)
  from rate_encoding_deterministic [OF h(1) h(1) h(2-8), of lcg_random]
  obtain out1 out2 where
    e: "SpikeEncoder_encode lcg_random rate_2x2 [0, 1] [9, 9, 9, 9, 9] 1 = (rate_2x2, out1, [])"
      "SpikeEncoder_encode lcg_random rate_2x2 [0, 1] [8, 8, 8, 8] 1 = (rate_2x2, out2, [])"
      "take 4 out1 = take 4 out2"
    and d: "drop 4 out1 = drop 4 [9, 9, 9, 9, 9]"
    and v: "out1 ! 0
             = (if fst (uniform_real lcg_random (rng_after lcg_random (mt19937 lcg_random 42) 0))
                     < 1 / (1 + exp (- 10 * [0, 1] ! (0 mod (nat 1 * nat (enc_input_size rate_2x2)))))
                then 1 else 0)"
    by blast
  from d have d': "drop 4 out1 = [9]" by simp
  from v have "out1 ! 0 = 1"
    by (simp add: lcg_random_def rng_after_def)
  with e d' h show ?thesis by blast
qed

text \<open>
  Claim C10. With the type \<open>TEMPORAL\<close>, \<open>encode\<close> returns the output array and the encoder as
  they were and sends one line to the error log. The rule of \<open>TemporalContrastEncoder\<close>
  (lemma \<open>TemporalContrastEncoder_encode_partial\<close>) is not called from \<open>encode\<close>.
\<close>

theorem temporal_is_not_encoded:
  assumes "enc_type se = TEMPORAL"
  shows "SpikeEncoder_encode lib se input spike_trains batch_size
           = (se, spike_trains, [''Unsupported encoding type''])"
  using assms by (simp add: SpikeEncoder_encode_def)

theorem temporal_is_not_encoded_witness:
  "enc_type \<lparr>enc_input_size = 3, enc_num_steps = 5, enc_type = TEMPORAL\<rparr> = TEMPORAL
   \<and> SpikeEncoder_encode lcg_random \<lparr>enc_input_size = 3, enc_num_steps = 5, enc_type = TEMPORAL\<rparr>
         [1 / 2, 0, - 1] (replicate 15 7) 1
       = (\<lparr>enc_input_size = 3, enc_num_steps = 5, enc_type = TEMPORAL\<rparr>, replicate 15 7,
          [''Unsupported encoding type''])"
proof -
  have h: "enc_type \<lparr>enc_input_size = 3, enc_num_steps = 5, enc_type = TEMPORAL\<rparr> = TEMPORAL"
    by simp
  from temporal_is_not_encoded [OF h] h show ?thesis by blast
qed


section \<open>Properties of the ring buffer\<close>

subsection \<open>The cursors as natural numbers\<close>










subsection \<open>The two-chunk copies\<close>

lemma memcpy_Inr:
  "d + n \<le> length dst \<Longrightarrow> s + n \<le> length src \<Longrightarrow>
     memcpy dst d src s n = Inr (take d dst @ take n (drop s src) @ drop (d + n) dst)"
  by (simp add: memcpy_def)










subsection \<open>\<open>write\<close> and \<open>read\<close> in terms of the two-chunk copies\<close>







subsection \<open>What \<open>write\<close>, \<open>read\<close> and \<open>clear\<close> do to the unread samples\<close>



lemma length_unread:
  assumes "rb_inv rb"
  shows "length (unread rb) = unat (rb_available rb)"
  by (simp add: unread_def)






subsection \<open>Histories\<close>




subsection \<open>Scenario C\<close>





subsection \<open>The claims on the ring buffer\<close>







end
